theory Spec2Isabelle
  imports Complex_Main "HOL-Library.Multiset" "HOL-Library.Log_Nat"
begin

section \<open>Data model\<close>

text \<open>
  Strings that the program only compares for equality (ids, calendar dates, categories,
  badge types) are \<open>string\<close>s. A task title is a sequence of UTF-16 code units, since
  \<open>trim\<close> classifies code units beyond ASCII.
\<close>

type_synonym code_unit = nat
type_synonym js_string = "code_unit list"

text \<open>
  The \<open>Task\<close> interface of \<open>App.tsx\<close>. The four optional fields are options; the
  fields \<open>id\<close> and \<open>user_id\<close> carry a prefix.
\<close>

record Task =
  task_id :: string
  title :: js_string
  priority :: nat
  completed :: bool
  date :: string
  task_user_id :: string
  category :: "string option"
  estimated_minutes :: "nat option"
  actual_minutes :: "nat option"
  energy_level :: "string option"

section \<open>Streak calculator (\<open>calculateStreak\<close> in \<open>App.tsx\<close>)\<close>

text \<open>
  The grouping object built by \<open>reduce\<close>: a missing key is created with an empty array,
  then the task is pushed. Keys are calendar dates in ISO form, as \<open>addTask\<close> writes them.
\<close>

definition groupStep :: "(string \<rightharpoonup> Task list) \<Rightarrow> Task \<Rightarrow> (string \<rightharpoonup> Task list)" where
  "groupStep acc task =
     (case acc (date task) of
        None \<Rightarrow> acc(date task \<mapsto> [] @ [task])
      | Some ts \<Rightarrow> acc(date task \<mapsto> ts @ [task]))"

definition tasksByDate :: "Task list \<Rightarrow> (string \<rightharpoonup> Task list)" where
  "tasksByDate completedTasks = foldl groupStep Map.empty completedTasks"

text \<open>
  The \<open>for\<close> loop of lines 278 to 288. The clock is a parameter: \<open>dateStr i\<close> is the
  string that lines 279 to 281 compute in iteration \<open>i\<close>, the ISO date of the day \<open>i\<close> days
  before today. The loop leaves at the first date without a non-empty group, or when
  \<open>i\<close> reaches 365.
\<close>

function streakLoop :: "(nat \<Rightarrow> string) \<Rightarrow> (string \<rightharpoonup> Task list) \<Rightarrow> nat \<Rightarrow> nat \<Rightarrow> nat" where
  "streakLoop dateStr byDate i streak =
     (if i < 365 then
        (case byDate (dateStr i) of
           None \<Rightarrow> streak
         | Some ts \<Rightarrow>
             if 0 < length ts then streakLoop dateStr byDate (Suc i) (Suc streak)
             else streak)
      else streak)"
  by pat_completeness auto
termination
  by (relation "measure (\<lambda>(dateStr, byDate, i, streak). 365 - i)") auto

declare streakLoop.simps [simp del]

text \<open>
  \<open>calculateStreak\<close> stores its result with \<open>setCurrentStreak\<close>; the model returns the
  stored value.
\<close>

definition calculateStreak :: "(nat \<Rightarrow> string) \<Rightarrow> Task list \<Rightarrow> nat" where
  "calculateStreak dateStr completedTasks =
     (if length completedTasks = 0 then 0
      else streakLoop dateStr (tasksByDate completedTasks) 0 0)"

text \<open>Offset \<open>i\<close> is present in a history when some record carries that day's date.\<close>

definition present :: "(nat \<Rightarrow> string) \<Rightarrow> Task list \<Rightarrow> nat \<Rightarrow> bool" where
  "present dateStr H i = (dateStr i \<in> date ` set H)"

subsection \<open>A concrete clock for the examples\<close>


definition digit :: "int \<Rightarrow> char" where
  "digit n = ''0123456789'' ! nat (n mod 10)"







section \<open>Badge evaluator (\<open>Gamification\<close> component)\<close>

text \<open>
  A stored badge, as the component's \<open>Badge\<close> interface declares it. The record
  fields carry a prefix where the plain name is taken (\<open>id\<close>, \<open>user_id\<close>).
\<close>

record Badge =
  badge_id :: string
  badge_user_id :: string
  badge_type :: string
  earned_at :: string
  badge_data :: string

text \<open>
  The weekly test \<open>(completedTasksThisWeek / weeklyGoal) * 100 >= 100\<close>. Both operands
  are non-negative integers (an array length and a counter that starts at 35 and moves in
  steps of 7, never below 7). The quotient is written over the rationals; a zero divisor,
  which the language answers with \<open>Infinity\<close> (or \<open>NaN\<close> for \<open>0/0\<close>), is its own branch.
\<close>

definition weeklyReached :: "nat \<Rightarrow> nat \<Rightarrow> bool" where
  "weeklyReached completedTasksThisWeek weeklyGoal =
     (if weeklyGoal = 0 then 0 < completedTasksThisWeek
      else (100::rat) \<le> (of_nat completedTasksThisWeek / of_nat weeklyGoal) * 100)"

text \<open>
  Lines 93 to 114 of \<open>checkAndAwardBadges\<close>: five guarded \<open>push\<close> calls on a list that
  starts empty. \<open>existingBadgeTypes\<close> is \<open>badges.map(b => b.badge_type)\<close>.
\<close>

definition pushIf :: "bool \<Rightarrow> string \<Rightarrow> string list \<Rightarrow> string list" where
  "pushIf c b newBadges = (if c then newBadges @ [b] else newBadges)"

definition evalBadges :: "nat \<Rightarrow> nat \<Rightarrow> nat \<Rightarrow> string list \<Rightarrow> string list" where
  "evalBadges currentStreak completedTasksThisWeek weeklyGoal existingBadgeTypes =
     (pushIf (weeklyReached completedTasksThisWeek weeklyGoal
                \<and> ''weekly_goal'' \<notin> set existingBadgeTypes) ''weekly_goal''
     (pushIf (30 \<le> currentStreak \<and> ''streak_30'' \<notin> set existingBadgeTypes) ''streak_30''
     (pushIf (14 \<le> currentStreak \<and> ''streak_14'' \<notin> set existingBadgeTypes) ''streak_14''
     (pushIf (7 \<le> currentStreak \<and> ''streak_7'' \<notin> set existingBadgeTypes) ''streak_7''
     (pushIf (3 \<le> currentStreak \<and> ''streak_3'' \<notin> set existingBadgeTypes) ''streak_3''
        [])))))"

text \<open>The catalog the evaluator walks, and each entry's eligibility condition.\<close>

definition catalog :: "string list" where
  "catalog = [''streak_3'', ''streak_7'', ''streak_14'', ''streak_30'', ''weekly_goal'']"

definition eligible :: "nat \<Rightarrow> nat \<Rightarrow> nat \<Rightarrow> string \<Rightarrow> bool" where
  "eligible currentStreak completedTasksThisWeek weeklyGoal b =
     (if b = ''streak_3'' then 3 \<le> currentStreak
      else if b = ''streak_7'' then 7 \<le> currentStreak
      else if b = ''streak_14'' then 14 \<le> currentStreak
      else if b = ''streak_30'' then 30 \<le> currentStreak
      else if b = ''weekly_goal'' then weeklyReached completedTasksThisWeek weeklyGoal
      else False)"

section \<open>Task operations (\<open>addTask\<close>, \<open>toggleTask\<close>, \<open>movePriority\<close> in \<open>App.tsx\<close>)\<close>

text \<open>
  \<open>String.prototype.trim\<close> strips white space and line terminators from both ends. The
  code units below are the language's \<open>WhiteSpace\<close> and \<open>LineTerminator\<close> productions
  (TAB, LF, VT, FF, CR, SP, NBSP, U+1680, U+2000 to U+200A, U+2028, U+2029, U+202F,
  U+205F, U+3000, U+FEFF).
\<close>

definition isWhiteSpace :: "code_unit \<Rightarrow> bool" where
  "isWhiteSpace c =
     (c \<in> {9, 10, 11, 12, 13, 32, 160, 5760, 8232, 8233, 8239, 8287, 12288, 65279}
      \<or> (8192 \<le> c \<and> c \<le> 8202))"

definition trim :: "js_string \<Rightarrow> js_string" where
  "trim s = rev (dropWhile isWhiteSpace (rev (dropWhile isWhiteSpace s)))"

text \<open>
  What the component sends to the store, what it shows to the user, and the part of the
  component's state that the three operations read or write. \<open>user\<close> is \<open>user?.id\<close>
  (absent when nobody is signed in), \<open>selectedDate\<close> the ISO date of the selected day.
  \<open>calls\<close> lists the store calls issued so far, oldest first; \<open>loadTasksCalls\<close> and
  \<open>loadHistoryCalls\<close> count the reloads requested by \<open>loadTasks()\<close> and
  \<open>loadCompletedTasksHistory()\<close>.
\<close>

datatype store_call =
    Create Task
  | UpdateCompleted string bool
  | UpdatePriority string nat

datatype toast =
    LimitError nat
  | TaskAdded
  | AddFailed
  | TaskCompleted
  | ToggleFailed
  | PriorityUpdated
  | PriorityFailed

record App =
  user :: "string option"
  newTaskTitle :: js_string
  isCreatingTask :: bool
  tasks :: "Task list"
  dailyTaskLimit :: nat
  selectedDate :: string
  calls :: "store_call list"
  toasts :: "toast list"
  loadTasksCalls :: nat
  loadHistoryCalls :: nat

text \<open>
  The capacity guard of line 344, \<open>tasks.length >= settings.dailyTaskLimit\<close>, rejects;
  \<open>canAddTask\<close> is its negation.
\<close>

definition canAddTask :: "nat \<Rightarrow> nat \<Rightarrow> bool" where
  "canAddTask currentCount dailyLimit = (\<not> currentCount \<ge> dailyLimit)"

text \<open>
  \<open>addTask\<close>. The generated id and the outcome of the store's \<open>create\<close> come from the
  environment. \<open>!user?.id\<close> holds when nobody is signed in or the id is empty. A
  rejected attempt returns before anything is built; a failed \<open>create\<close> leaves the list
  as it was.
\<close>

definition newTaskOf :: "string \<Rightarrow> string \<Rightarrow> App \<Rightarrow> Task" where
  "newTaskOf newId uid st =
     \<lparr>task_id = newId, title = trim (newTaskTitle st),
      priority = length (tasks st) + 1, completed = False,
      date = selectedDate st, task_user_id = uid,
      category = Some ''general'', estimated_minutes = Some 30,
      actual_minutes = None, energy_level = Some ''medium''\<rparr>"

definition addTask :: "string \<Rightarrow> bool \<Rightarrow> App \<Rightarrow> App" where
  "addTask newId createOk st =
     (case user st of
        None \<Rightarrow> st
      | Some uid \<Rightarrow>
          if uid = [] \<or> trim (newTaskTitle st) = [] \<or> isCreatingTask st then st
          else if \<not> canAddTask (length (tasks st)) (dailyTaskLimit st) then
            st\<lparr>toasts := toasts st @ [LimitError (dailyTaskLimit st)]\<rparr>
          else if createOk then
            st\<lparr>calls := calls st @ [Create (newTaskOf newId uid st)],
               tasks := tasks st @ [newTaskOf newId uid st],
               newTaskTitle := [],
               toasts := toasts st @ [TaskAdded],
               isCreatingTask := False\<rparr>
          else
            st\<lparr>calls := calls st @ [Create (newTaskOf newId uid st)],
               toasts := toasts st @ [AddFailed],
               isCreatingTask := False\<rparr>)"

text \<open>The input field's \<open>onChange\<close> handler.\<close>

definition setNewTaskTitle :: "js_string \<Rightarrow> App \<Rightarrow> App" where
  "setNewTaskTitle t st = st\<lparr>newTaskTitle := t\<rparr>"


text \<open>
  \<open>movePriority\<close>. \<open>findIndex\<close> gives the first position of the id; the two \<open>splice\<close>
  calls take the element out and put it back at the neighbouring position; \<open>map\<close>
  renumbers. The store is then updated task by task, in list order, and the loop stops at
  the first update that fails (\<open>updateOk k\<close> is the outcome of the \<open>k\<close>-th update).
\<close>

datatype direction = Up | Down

fun findIndex :: "('a \<Rightarrow> bool) \<Rightarrow> 'a list \<Rightarrow> nat option" where
  "findIndex P [] = None"
| "findIndex P (x # xs) =
     (if P x then Some 0 else map_option Suc (findIndex P xs))"

definition spliceOut :: "nat \<Rightarrow> 'a list \<Rightarrow> 'a list" where
  "spliceOut i xs = take i xs @ drop (Suc i) xs"

definition spliceIn :: "nat \<Rightarrow> 'a \<Rightarrow> 'a list \<Rightarrow> 'a list" where
  "spliceIn i x xs = take i xs @ [x] @ drop i xs"

definition renumber :: "Task list \<Rightarrow> Task list" where
  "renumber ts = map (\<lambda>(task, index). task\<lparr>priority := index + 1\<rparr>) (zip ts [0..<length ts])"

fun updateAll :: "(nat \<Rightarrow> bool) \<Rightarrow> nat \<Rightarrow> Task list \<Rightarrow> store_call list \<times> bool" where
  "updateAll updateOk k [] = ([], True)"
| "updateAll updateOk k (task # rest) =
     (if updateOk k then
        (case updateAll updateOk (Suc k) rest of
           (cs, ok) \<Rightarrow> (UpdatePriority (task_id task) (priority task) # cs, ok))
      else ([UpdatePriority (task_id task) (priority task)], False))"

definition movePriority :: "string \<Rightarrow> direction \<Rightarrow> (nat \<Rightarrow> bool) \<Rightarrow> App \<Rightarrow> App" where
  "movePriority taskId dir updateOk st =
     (case findIndex (\<lambda>t. task_id t = taskId) (tasks st) of
        None \<Rightarrow> st
      | Some taskIndex \<Rightarrow>
          let newIndex = (case dir of Up \<Rightarrow> int taskIndex - 1 | Down \<Rightarrow> int taskIndex + 1)
          in
          if newIndex < 0 \<or> newIndex \<ge> int (length (tasks st)) then st
          else
            let movedTask = tasks st ! taskIndex;
                newTasks = spliceIn (nat newIndex) movedTask (spliceOut taskIndex (tasks st));
                updatedTasks = renumber newTasks
            in (case updateAll updateOk 0 updatedTasks of
                  (cs, ok) \<Rightarrow>
                    if ok then
                      st\<lparr>tasks := updatedTasks, calls := calls st @ cs,
                         toasts := toasts st @ [PriorityUpdated]\<rparr>
                    else
                      st\<lparr>tasks := updatedTasks, calls := calls st @ cs,
                         toasts := toasts st @ [PriorityFailed],
                         loadTasksCalls := Suc (loadTasksCalls st)\<rparr>))"


text \<open>Example state: five tasks titled A to E with priorities 1 to 5, daily limit 5.\<close>

definition mkTask :: "string \<Rightarrow> js_string \<Rightarrow> nat \<Rightarrow> Task" where
  "mkTask i t p =
     \<lparr>task_id = i, title = t, priority = p, completed = False,
      date = ''2026-11-02'', task_user_id = ''u1'', category = Some ''general'',
      estimated_minutes = Some 30, actual_minutes = None, energy_level = Some ''medium''\<rparr>"

definition emptyDay :: App where
  "emptyDay =
     \<lparr>user = Some ''u1'', newTaskTitle = [], isCreatingTask = False, tasks = [],
      dailyTaskLimit = 5, selectedDate = ''2026-11-02'', calls = [], toasts = [],
      loadTasksCalls = 0, loadHistoryCalls = 0\<rparr>"

definition fiveTasks :: App where
  "fiveTasks =
     emptyDay\<lparr>tasks := [mkTask ''a'' [65] 1, mkTask ''b'' [66] 2, mkTask ''c'' [67] 3,
                        mkTask ''d'' [68] 4, mkTask ''e'' [69] 5]\<rparr>"

text \<open>
  Example run: on the empty day the user types the titles A to E and adds each; every
  \<open>create\<close> succeeds.
\<close>

definition afterFive :: App where
  "afterFive =
     foldl (\<lambda>st (t, i). addTask i True (setNewTaskTitle t st)) emptyDay
       [([65], ''a''), ([66], ''b''), ([67], ''c''), ([68], ''d''), ([69], ''e'')]"

section \<open>The \<open>Gamification\<close> component as a state machine\<close>

text \<open>
  The component's props (\<open>user?.id\<close>, \<open>currentStreak\<close>, \<open>completedTasksThisWeek\<close>), its
  state (\<open>badges\<close>, \<open>weeklyGoal\<close>, \<open>showNewBadge\<close>), and next to them the badge table of
  the store for this user (\<open>userBadges\<close>, oldest first), the \<open>create\<close> calls issued so far,
  the celebration toasts shown, and the number of times the eligibility check of lines
  93 to 114 has run.
\<close>

record Gamification =
  userProp :: "string option"
  currentStreak :: nat
  completedTasksThisWeek :: nat
  weeklyGoal :: nat
  badges :: "Badge list"
  showNewBadge :: "string option"
  userBadges :: "Badge list"
  createCalls :: "Badge list"
  badgeToasts :: "string list"
  checks :: nat












section \<open>Insight generator (\<open>generateInsights\<close> in \<open>AIInsights.tsx\<close>)\<close>

subsection \<open>Numbers\<close>

text \<open>
  The language's numbers are IEEE 754 double-precision values. A finite double is modelled
  by the rational number it denotes. \<open>fl\<close> rounds a rational to the nearest double, ties
  to the even significand, as every arithmetic operation of the language rounds its exact
  result: \<open>ilog2 a\<close> is the binary exponent of \<open>a\<close>, the significand has 53 bits. The
  definition covers the normal range (magnitudes from \<open>2^-1022\<close> up to \<open>2^1024\<close>); the
  quantities of this component, quotients and sums of minute counts, stay inside it.
\<close>

type_synonym number = rat

definition ilog2 :: "rat \<Rightarrow> int" where
  "ilog2 a =
     (case quotient_of a of
        (n, d) \<Rightarrow> let e0 = bitlen n - bitlen d in if 2 powi e0 \<le> a then e0 else e0 - 1)"

definition roundEven :: "rat \<Rightarrow> int" where
  "roundEven m =
     (let f = \<lfloor>m\<rfloor>; d = m - of_int f
      in if d < 1 / 2 then f else if 1 / 2 < d then f + 1 else if even f then f else f + 1)"

definition fl :: "rat \<Rightarrow> number" where
  "fl q =
     (if q = 0 then 0
      else let a = \<bar>q\<bar>; u = 2 powi (ilog2 a - 52)
           in sgn q * of_int (roundEven (a / u)) * u)"

text \<open>\<open>Math.round\<close>: the nearest integer, a tie going up.\<close>

definition mathRound :: "number \<Rightarrow> int" where
  "mathRound x = \<lfloor>x + 1 / 2\<rfloor>"

text \<open>An integer in a template literal: its decimal digits, with a sign when negative.\<close>

function showNat :: "nat \<Rightarrow> string" where
  "showNat n = (if n < 10 then [digit (int n)] else showNat (n div 10) @ [digit (int n)])"
  by pat_completeness auto
termination
  by (relation "measure id") auto

declare showNat.simps [simp del]

definition showInt :: "int \<Rightarrow> string" where
  "showInt i = (if i < 0 then ''-'' @ showNat (nat (- i)) else showNat (nat i))"

subsection \<open>Data\<close>

text \<open>
  The \<open>Task\<close> interface of \<open>AIInsights.tsx\<close>; its field names carry the suffix \<open>I\<close> where
  the other \<open>Task\<close> interface has the same name. A minute count that the record does not
  carry (\<open>undefined\<close>) is \<open>None\<close>. The \<open>Insight\<close> interface follows.
\<close>

record InsightTask =
  idI :: string
  titleI :: js_string
  categoryI :: string
  completedI :: bool
  dateI :: string
  estimatedMinutes :: "int option"
  actualMinutes :: "int option"
  energyLevel :: string

datatype insight_type = Pattern | Recommendation | Achievement | Optimization

datatype icon = Target | Clock | TrendingUp

record Insight =
  insight_id :: string
  insight_type :: insight_type
  insight_title :: string
  description :: string
  confidence :: number
  actionable :: bool
  insight_icon :: icon

subsection \<open>Rule 1: category pattern (lines 46 to 65)\<close>

text \<open>\<open>slice(-14)\<close>: the last 14 elements of the array, all of it when it is shorter.\<close>

definition sliceLast14 :: "'a list \<Rightarrow> 'a list" where
  "sliceLast14 xs = drop (length xs - 14) xs"

text \<open>
  The counting object, as the list of its entries in insertion order (the order in which
  \<open>Object.entries\<close> lists keys that are not array indices; category names are words).
  A key that is present is incremented, a new key is appended with count 1.
\<close>

fun bumpCategory :: "(string \<times> nat) list \<Rightarrow> string \<Rightarrow> (string \<times> nat) list" where
  "bumpCategory [] c = [(c, 0 + 1)]"
| "bumpCategory ((k, n) # rest) c =
     (if k = c then (k, n + 1) # rest else (k, n) # bumpCategory rest c)"

definition categoryStats :: "InsightTask list \<Rightarrow> (string \<times> nat) list" where
  "categoryStats recentTasks = foldl (\<lambda>acc task. bumpCategory acc (categoryI task)) [] recentTasks"

text \<open>
  \<open>sort(([,a], [,b]) => b - a)[0]\<close>: the sort is stable and descending in the count, so
  the first entry is the first key with the largest count; \<open>undefined\<close> for no entries.
\<close>

definition topCategory :: "(string \<times> nat) list \<Rightarrow> (string \<times> nat) option" where
  "topCategory entries =
     (case sort_key (\<lambda>(k, n). - int n) entries of [] \<Rightarrow> None | e # _ \<Rightarrow> Some e)"

definition categoryPercent :: "nat \<Rightarrow> nat \<Rightarrow> int" where
  "categoryPercent n len = mathRound (fl (fl (of_nat n / of_nat len) * 100))"

definition categoryRule :: "InsightTask list \<Rightarrow> Insight list" where
  "categoryRule completedTasksHistory =
     (if length completedTasksHistory \<ge> 7 then
        let recentTasks = sliceLast14 completedTasksHistory
        in (case topCategory (categoryStats recentTasks) of
              None \<Rightarrow> []
            | Some (cat, n) \<Rightarrow>
                [\<lparr>insight_id = ''category-pattern'', insight_type = Pattern,
                  insight_title = ''Category Focus Detected'',
                  description = ''You complete ''
                    @ showInt (categoryPercent n (length recentTasks))
                    @ ''% more '' @ cat @ '' tasks. Consider balancing other areas.'',
                  confidence = fl (85 / 100), actionable = True, insight_icon = Target\<rparr>])
      else [])"

subsection \<open>Rule 2: time estimation (lines 68 to 86)\<close>

text \<open>
  \<open>t.estimatedMinutes && t.actualMinutes\<close> keeps a record when both values are truthy: a
  number is truthy when it is not zero, \<open>undefined\<close> is not.
\<close>

definition truthy :: "int option \<Rightarrow> bool" where
  "truthy v = (case v of None \<Rightarrow> False | Some n \<Rightarrow> n \<noteq> 0)"

definition hasTime :: "InsightTask \<Rightarrow> bool" where
  "hasTime t = (truthy (estimatedMinutes t) \<and> truthy (actualMinutes t))"

text \<open>A stored minute count as a number; the per-record accuracy; the running sum.\<close>

definition num :: "int option \<Rightarrow> number" where
  "num v = (case v of None \<Rightarrow> 0 | Some n \<Rightarrow> fl (of_int n))"

definition accuracy :: "InsightTask \<Rightarrow> number" where
  "accuracy task =
     fl (1 - fl (\<bar>fl (num (estimatedMinutes task) - num (actualMinutes task))\<bar>
                   / num (estimatedMinutes task)))"

definition avgAccuracy :: "InsightTask list \<Rightarrow> number" where
  "avgAccuracy tasksWithTime =
     fl (foldl (\<lambda>acc task. fl (acc + max 0 (accuracy task))) 0 tasksWithTime
           / of_nat (length tasksWithTime))"

definition timeRule :: "InsightTask list \<Rightarrow> Insight list" where
  "timeRule completedTasksHistory =
     (let tasksWithTime = filter hasTime completedTasksHistory
      in if length tasksWithTime \<ge> 5 then
           (if avgAccuracy tasksWithTime < fl (7 / 10) then
              [\<lparr>insight_id = ''time-estimation'', insight_type = Recommendation,
                insight_title = ''Improve Time Estimation'',
                description = ''Your time estimates are ''
                  @ showInt (mathRound (fl (avgAccuracy tasksWithTime * 100)))
                  @ ''% accurate. Try tracking actual time more carefully.'',
                confidence = fl (9 / 10), actionable = True, insight_icon = Clock\<rparr>]
            else [])
         else [])"

subsection \<open>Rules 3 and 4, and the whole generator\<close>

definition streakRule :: "nat \<Rightarrow> Insight list" where
  "streakRule streak =
     (if streak \<ge> 7 then
        [\<lparr>insight_id = ''streak-achievement'', insight_type = Achievement,
          insight_title = ''Consistency Champion'',
          description = showNat streak
            @ '' days of focused productivity! You're building an incredible habit.'',
          confidence = 1, actionable = False, insight_icon = TrendingUp\<rparr>]
      else [])"

definition momentumRule :: "InsightTask list \<Rightarrow> Insight list" where
  "momentumRule ts =
     (let todayCompleted = length (filter completedI ts)
      in if todayCompleted \<ge> 3 \<and> length ts = 5 then
           [\<lparr>insight_id = ''daily-momentum'', insight_type = Recommendation,
             insight_title = ''Strong Daily Momentum'',
             description =
               ''You're on track for another successful day. Keep the momentum going!'',
             confidence = fl (8 / 10), actionable = False, insight_icon = TrendingUp\<rparr>]
         else [])"

definition generateInsights :: "InsightTask list \<Rightarrow> InsightTask list \<Rightarrow> nat \<Rightarrow> Insight list" where
  "generateInsights ts completedTasksHistory streak =
     categoryRule completedTasksHistory @ timeRule completedTasksHistory
       @ streakRule streak @ momentumRule ts"

subsection \<open>The claimed reading of the two rules, for comparison\<close>

text \<open>
  The window of the most recent 14 records of a history that is ordered most recent
  first, and the share of a category in a window, as a rounded percentage.
\<close>

definition mostRecent14 :: "'a list \<Rightarrow> 'a list" where
  "mostRecent14 xs = take 14 xs"

text \<open>
  A record qualifies, in the claimed reading, when estimate and actual are present and
  the estimate is positive; the claimed mean is the exact mean of
  \<open>max(0, 1 - |estimated - actual| / estimated)\<close> over the qualifying records.
\<close>

definition claimedQualifying :: "InsightTask \<Rightarrow> bool" where
  "claimedQualifying t =
     (case (estimatedMinutes t, actualMinutes t) of
        (Some e, Some a) \<Rightarrow> 0 < e
      | _ \<Rightarrow> False)"

definition claimedAccuracy :: "InsightTask \<Rightarrow> rat" where
  "claimedAccuracy t =
     (case (estimatedMinutes t, actualMinutes t) of
        (Some e, Some a) \<Rightarrow> max 0 (1 - \<bar>of_int e - of_int a\<bar> / of_int e)
      | _ \<Rightarrow> 0)"

definition claimedMean :: "InsightTask list \<Rightarrow> rat" where
  "claimedMean h =
     sum_list (map claimedAccuracy (filter claimedQualifying h))
       / of_nat (length (filter claimedQualifying h))"

subsection \<open>Example histories\<close>

definition doneTask :: "string \<Rightarrow> int option \<Rightarrow> int option \<Rightarrow> InsightTask" where
  "doneTask cat e a =
     \<lparr>idI = ''t'', titleI = [], categoryI = cat, completedI = True, dateI = ''2026-11-02'',
      estimatedMinutes = e, actualMinutes = a, energyLevel = ''medium''\<rparr>"

text \<open>
  Most recent first: the 14 newest records are \<open>work\<close>, the 14 before them \<open>health\<close>.
\<close>

definition history28 :: "InsightTask list" where
  "history28 = replicate 14 (doneTask ''work'' None None) @ replicate 14 (doneTask ''health'' None None)"

text \<open>
  Five records with estimate 30 and actual 0; six records with estimate 10 whose exact
  accuracies 0.1, 0.2, 1, 0.9, 1, 1 have the mean 0.7; five records of accuracy 0.7 each;
  five records of accuracy 0.6999 each.
\<close>

definition historyActualZero :: "InsightTask list" where
  "historyActualZero = replicate 5 (doneTask ''work'' (Some 30) (Some 0))"

definition historySix :: "InsightTask list" where
  "historySix = map (\<lambda>a. doneTask ''work'' (Some 10) (Some a)) [1, 2, 10, 9, 10, 10]"

definition historySeventy :: "InsightTask list" where
  "historySeventy = replicate 5 (doneTask ''work'' (Some 10) (Some 7))"

definition historyBelow :: "InsightTask list" where
  "historyBelow = replicate 5 (doneTask ''work'' (Some 10000) (Some 6999))"

section \<open>Lemmas: streak calculator\<close>

lemma groupStep_apply:
  "groupStep acc t k =
     (if date t = k then Some ((case acc k of None \<Rightarrow> [] | Some xs \<Rightarrow> xs) @ [t])
      else acc k)"
  by (simp add: groupStep_def split: option.splits)

lemma foldl_groupStep:
  "foldl groupStep acc ts k =
     (case acc k of
        None \<Rightarrow> (if filter (\<lambda>t. date t = k) ts = [] then None
                 else Some (filter (\<lambda>t. date t = k) ts))
      | Some xs \<Rightarrow> Some (xs @ filter (\<lambda>t. date t = k) ts))"
proof (induction ts arbitrary: acc)
  case Nil
  then show ?case by (simp split: option.splits)
next
  case (Cons t ts)
  have "foldl groupStep acc (t # ts) k = foldl groupStep (groupStep acc t) ts k"
    by simp
  also have "\<dots> =
     (case groupStep acc t k of
        None \<Rightarrow> (if filter (\<lambda>t. date t = k) ts = [] then None
                 else Some (filter (\<lambda>t. date t = k) ts))
      | Some xs \<Rightarrow> Some (xs @ filter (\<lambda>t. date t = k) ts))"
    by (rule Cons.IH)
  also have "\<dots> =
     (case acc k of
        None \<Rightarrow> (if filter (\<lambda>t. date t = k) (t # ts) = [] then None
                 else Some (filter (\<lambda>t. date t = k) (t # ts)))
      | Some xs \<Rightarrow> Some (xs @ filter (\<lambda>t. date t = k) (t # ts)))"
    by (simp add: groupStep_apply split: option.splits)
  finally show ?case .
qed

lemma tasksByDate_eq:
  "tasksByDate ts k =
     (if filter (\<lambda>t. date t = k) ts = [] then None
      else Some (filter (\<lambda>t. date t = k) ts))"
  by (simp add: tasksByDate_def foldl_groupStep)

lemma tasksByDate_present:
  "(case tasksByDate H (dateStr i) of None \<Rightarrow> False | Some ts \<Rightarrow> 0 < length ts)
     = present dateStr H i"
  by (auto simp add: tasksByDate_eq present_def filter_empty_conv image_iff)
     (metis)

lemma streakLoop_eq:
  "365 - i = n \<Longrightarrow>
   streakLoop dateStr (tasksByDate H) i s
     = s + length (takeWhile (present dateStr H) [i..<365])"
proof (induction n arbitrary: i s)
  case 0
  then have "\<not> i < 365" by simp
  then show ?case
    by (subst streakLoop.simps) simp
next
  case (Suc n)
  then have i: "i < 365" and n: "365 - Suc i = n" by simp_all
  have upt: "[i..<365] = i # [Suc i..<365]"
    using i by (simp add: upt_conv_Cons)
  show ?case
  proof (cases "present dateStr H i")
    case True
    then obtain ts where ts: "tasksByDate H (dateStr i) = Some ts" "0 < length ts"
      using tasksByDate_present [of H dateStr i] by (auto split: option.splits)
    have "streakLoop dateStr (tasksByDate H) i s
            = streakLoop dateStr (tasksByDate H) (Suc i) (Suc s)"
      using i ts by (subst streakLoop.simps) simp
    also have "\<dots> = Suc s + length (takeWhile (present dateStr H) [Suc i..<365])"
      by (rule Suc.IH [OF n])
    finally show ?thesis
      using True by (simp add: upt)
  next
    case False
    then have "streakLoop dateStr (tasksByDate H) i s = s"
      using i tasksByDate_present [of H dateStr i]
      by (subst streakLoop.simps) (auto split: option.splits)
    then show ?thesis
      using False by (simp add: upt)
  qed
qed

lemma calculateStreak_takeWhile:
  "calculateStreak dateStr H = length (takeWhile (present dateStr H) [0..<365])"
proof (cases "H = []")
  case True
  have "takeWhile (present dateStr []) [0..<365] = []"
    by (simp add: present_def upt_conv_Cons)
  with True show ?thesis
    by (simp add: calculateStreak_def)
next
  case False
  then show ?thesis
    by (simp add: calculateStreak_def streakLoop_eq [where n = 365])
qed

lemma takeWhile_upt_run:
  "length (takeWhile P [0..<b]) = n \<Longrightarrow>
   n \<le> b \<and> (\<forall>i<n. P i) \<and> (n < b \<longrightarrow> \<not> P n)"
proof -
  assume len: "length (takeWhile P [0..<b]) = n"
  have le: "n \<le> b"
    using len length_takeWhile_le [of P "[0..<b]"] by simp
  have all: "P i" if "i < n" for i
  proof -
    have "i < length (takeWhile P [0..<b])" using that len by simp
    then have "P (takeWhile P [0..<b] ! i)"
      by (metis nth_mem set_takeWhileD)
    moreover have "takeWhile P [0..<b] ! i = [0..<b] ! i"
      using \<open>i < length (takeWhile P [0..<b])\<close> by (rule takeWhile_nth)
    moreover have "[0..<b] ! i = i"
      using that le by simp
    ultimately show ?thesis by simp
  qed
  have stop: "\<not> P n" if "n < b"
  proof -
    have "n < length [0..<b]" using that by simp
    with len have "\<not> P ([0..<b] ! n)"
      by (metis nth_length_takeWhile)
    then show ?thesis using that by simp
  qed
  from le all stop show ?thesis by blast
qed


lemma calculateStreak_le: "calculateStreak dateStr H \<le> 365"
  using length_takeWhile_le [of "present dateStr H" "[0..<365]"]
  by (simp add: calculateStreak_takeWhile)

lemma calculateStreak_run_props:
  "(\<forall>i < calculateStreak dateStr H. present dateStr H i)
   \<and> (calculateStreak dateStr H < 365 \<longrightarrow> \<not> present dateStr H (calculateStreak dateStr H))"
  using takeWhile_upt_run [of "present dateStr H" 365 "calculateStreak dateStr H"]
  by (simp add: calculateStreak_takeWhile)



lemma calculateStreak_short_history:
  assumes inj: "inj_on dateStr {0..<365}" and len: "length H < 365"
  shows "calculateStreak dateStr H < 365"
proof (rule ccontr)
  assume "\<not> calculateStreak dateStr H < 365"
  with calculateStreak_le [of dateStr H] have full: "calculateStreak dateStr H = 365" by simp
  have "\<forall>i<365. present dateStr H i"
    using calculateStreak_run_props [of dateStr H] full by simp
  then have sub: "dateStr ` {0..<365} \<subseteq> date ` set H"
    by (auto simp add: present_def)
  have "card (dateStr ` {0..<365}) = 365"
    using inj by (simp add: card_image)
  moreover have "card (dateStr ` {0..<365}) \<le> card (date ` set H)"
    using sub by (simp add: card_mono)
  moreover have "card (date ` set H) \<le> length H"
    by (metis card_image_le card_length le_trans List.finite_set)
  ultimately show False using len by simp
qed

section \<open>Claims about the streak calculator\<close>





section \<open>Lemmas: badge evaluator\<close>

lemma weeklyReached_iff:
  "0 < g \<Longrightarrow> weeklyReached c g = (g \<le> c)"
proof -
  assume g: "0 < g"
  have "((100::rat) \<le> (of_nat c / of_nat g) * 100) = ((of_nat g :: rat) \<le> of_nat c)"
    using g by (simp add: le_divide_eq)
  also have "\<dots> = (g \<le> c)"
    by simp
  finally show ?thesis
    using g by (simp add: weeklyReached_def)
qed

lemma evalBadges_filter:
  "evalBadges s c g ex =
     filter (\<lambda>b. eligible s c g b \<and> b \<notin> set ex) catalog"
  by (simp add: evalBadges_def pushIf_def catalog_def eligible_def)

section \<open>Claims about the badge evaluator\<close>


text \<open>
  Claim C4. A badge type that is in the already-earned list is never returned, whatever
  the metrics are. Hence a second evaluation with the same metrics, on an earned list that
  has grown by the results of the first, returns the empty list.
\<close>

theorem evalBadges_idempotent:
  "(\<forall>b \<in> set ex. b \<notin> set (evalBadges s c g ex))
   \<and> (set ex \<union> set (evalBadges s c g ex) \<subseteq> set ex' \<longrightarrow> evalBadges s c g ex' = [])"
proof
  show "\<forall>b \<in> set ex. b \<notin> set (evalBadges s c g ex)"
    by (simp add: evalBadges_filter)
next
  show "set ex \<union> set (evalBadges s c g ex) \<subseteq> set ex' \<longrightarrow> evalBadges s c g ex' = []"
  proof
    assume sub: "set ex \<union> set (evalBadges s c g ex) \<subseteq> set ex'"
    have "b \<in> set ex'" if b: "b \<in> set catalog" and e: "eligible s c g b" for b
    proof (cases "b \<in> set ex")
      case True
      with sub show ?thesis by blast
    next
      case False
      with b e have "b \<in> set (evalBadges s c g ex)"
        by (simp add: evalBadges_filter)
      with sub show ?thesis by blast
    qed
    then show "evalBadges s c g ex' = []"
      by (auto simp add: evalBadges_filter filter_empty_conv)
  qed
qed

theorem evalBadges_idempotent_witness:
  "evalBadges 10 40 35 [''streak_3''] = [''streak_7'', ''weekly_goal'']
   \<and> ''streak_3'' \<notin> set (evalBadges 10 40 35 [''streak_3''])
   \<and> set [''streak_3''] \<union> set (evalBadges 10 40 35 [''streak_3''])
         \<subseteq> set [''weekly_goal'', ''streak_7'', ''streak_3'']
   \<and> evalBadges 10 40 35 [''weekly_goal'', ''streak_7'', ''streak_3''] = []"
proof -
  have w: "weeklyReached 40 35"
    by (simp add: weeklyReached_iff)
  have first: "evalBadges 10 40 35 [''streak_3''] = [''streak_7'', ''weekly_goal'']"
    using w by (simp add: evalBadges_def pushIf_def)
  have sub: "set [''streak_3''] \<union> set (evalBadges 10 40 35 [''streak_3''])
         \<subseteq> set [''weekly_goal'', ''streak_7'', ''streak_3'']"
    by (simp add: first)
  from evalBadges_idempotent [of "[''streak_3'']" 10 40 35 "[''weekly_goal'', ''streak_7'', ''streak_3'']"]
  have "''streak_3'' \<notin> set (evalBadges 10 40 35 [''streak_3''])"
    and "evalBadges 10 40 35 [''weekly_goal'', ''streak_7'', ''streak_3''] = []"
    using sub by simp_all
  with first sub show ?thesis by simp
qed

section \<open>Lemmas: task operations\<close>

lemma trim_empty_iff: "(trim s = []) = (\<forall>c \<in> set s. isWhiteSpace c)"
proof
  assume "trim s = []"
  then have all: "\<forall>x \<in> set (dropWhile isWhiteSpace s). isWhiteSpace x"
    by (simp add: trim_def)
  have "dropWhile isWhiteSpace s = []"
  proof (rule ccontr)
    assume ne: "dropWhile isWhiteSpace s \<noteq> []"
    then have "\<not> isWhiteSpace (hd (dropWhile isWhiteSpace s))"
      by (rule hd_dropWhile)
    moreover have "hd (dropWhile isWhiteSpace s) \<in> set (dropWhile isWhiteSpace s)"
      using ne by (rule hd_in_set)
    ultimately show False using all by blast
  qed
  then show "\<forall>c \<in> set s. isWhiteSpace c"
    by (simp only: dropWhile_eq_Nil_conv)
next
  assume "\<forall>c \<in> set s. isWhiteSpace c"
  then have d: "dropWhile isWhiteSpace s = []"
    by (simp only: dropWhile_eq_Nil_conv)
  show "trim s = []"
    by (simp only: trim_def d rev.simps dropWhile.simps)
qed

lemma canAddTask_iff: "canAddTask n l = (n < l)"
  by (auto simp add: canAddTask_def)

lemma addTask_rejected:
  "dailyTaskLimit st \<le> length (tasks st) \<or> trim (newTaskTitle st) = [] \<Longrightarrow>
   calls (addTask newId createOk st) = calls st \<and> tasks (addTask newId createOk st) = tasks st"
  by (auto simp add: addTask_def canAddTask_iff split: option.splits)

lemma addTask_calls_cases:
  "calls (addTask newId createOk st) = calls st
   \<or> (\<exists>uid. user st = Some uid \<and> uid \<noteq> [] \<and> trim (newTaskTitle st) \<noteq> []
         \<and> \<not> isCreatingTask st \<and> length (tasks st) < dailyTaskLimit st
         \<and> calls (addTask newId createOk st) = calls st @ [Create (newTaskOf newId uid st)])"
  by (auto simp add: addTask_def canAddTask_iff split: option.splits)


lemma findIndex_Some:
  "findIndex P xs = Some i \<Longrightarrow> i < length xs \<and> P (xs ! i) \<and> (\<forall>j<i. \<not> P (xs ! j))"
  by (induction xs arbitrary: i) (auto split: if_splits simp: nth_Cons split: nat.splits)

lemma findIndex_None: "findIndex P xs = None \<Longrightarrow> \<forall>x \<in> set xs. \<not> P x"
  by (induction xs) (auto split: if_splits)

lemma findIndex_append:
  "\<forall>x \<in> set as. \<not> P x \<Longrightarrow> P a \<Longrightarrow> findIndex P (as @ a # bs) = Some (length as)"
  by (induction as) simp_all

lemma splice_down:
  "spliceIn (Suc (length as)) a (spliceOut (length as) (as @ a # b # bs)) = as @ b # a # bs"
  by (simp add: spliceIn_def spliceOut_def)

lemma splice_up:
  "spliceIn (length as) b (spliceOut (Suc (length as)) (as @ a # b # bs)) = as @ b # a # bs"
  by (simp add: spliceIn_def spliceOut_def)




lemma mset_splice:
  "i < length xs \<Longrightarrow> mset (spliceIn j (xs ! i) (spliceOut i xs)) = mset xs"
proof -
  assume i: "i < length xs"
  have "mset (spliceIn j (xs ! i) (spliceOut i xs))
          = mset (take j (spliceOut i xs)) + mset (drop j (spliceOut i xs)) + {#xs ! i#}"
    by (simp add: spliceIn_def)
  also have "\<dots> = mset (take j (spliceOut i xs) @ drop j (spliceOut i xs)) + {#xs ! i#}"
    by (simp only: mset_append)
  also have "\<dots> = mset (take i xs @ drop (Suc i) xs) + {#xs ! i#}"
    by (simp only: append_take_drop_id spliceOut_def)
  also have "\<dots> = mset (take i xs @ xs ! i # drop (Suc i) xs)"
    by simp
  also have "\<dots> = mset xs"
    using i by (simp add: id_take_nth_drop [symmetric])
  finally show ?thesis .
qed

lemma length_renumber: "length (renumber ts) = length ts"
  by (simp add: renumber_def)

lemma map_priority_renumber: "map priority (renumber ts) = [1..<Suc (length ts)]"
proof -
  have a: "map snd (zip ts [0..<length ts]) = [0..<length ts]"
    by (simp add: map_snd_zip)
  have "map priority (renumber ts) = map (Suc \<circ> snd) (zip ts [0..<length ts])"
    by (simp add: renumber_def split_def o_def)
  also have "\<dots> = map Suc (map snd (zip ts [0..<length ts]))"
    by (simp only: map_map)
  also have "\<dots> = map Suc [0..<length ts]"
    by (simp only: a)
  also have "\<dots> = [Suc 0..<Suc (length ts)]"
    by (simp only: map_Suc_upt)
  finally show ?thesis by (simp only: One_nat_def)
qed

lemma renumber_nth:
  "i < length ts \<Longrightarrow> renumber ts ! i = (ts ! i)\<lparr>priority := i + 1\<rparr>"
  by (simp add: renumber_def)

lemma map_title_renumber: "map title (renumber ts) = map title ts"
  by (rule nth_equalityI) (simp_all add: length_renumber renumber_nth)

lemma map_task_id_renumber: "map task_id (renumber ts) = map task_id ts"
  by (rule nth_equalityI) (simp_all add: length_renumber renumber_nth)



lemma movePriority_not_found:
  "findIndex (\<lambda>t. task_id t = taskId) (tasks st) = None \<Longrightarrow> movePriority taskId dir updateOk st = st"
  by (simp add: movePriority_def)

lemma movePriority_edge:
  "findIndex (\<lambda>t. task_id t = taskId) (tasks st) = Some i \<Longrightarrow>
   (dir = Up \<and> i = 0) \<or> (dir = Down \<and> Suc i = length (tasks st)) \<Longrightarrow>
   movePriority taskId dir updateOk st = st"
  by (auto simp add: movePriority_def Let_def)

lemma movePriority_tasks:
  "findIndex (\<lambda>t. task_id t = taskId) (tasks st) = Some i \<Longrightarrow>
   j = (case dir of Up \<Rightarrow> i - 1 | Down \<Rightarrow> Suc i) \<Longrightarrow>
   \<not> (dir = Up \<and> i = 0) \<Longrightarrow> j < length (tasks st) \<Longrightarrow>
   tasks (movePriority taskId dir updateOk st)
     = renumber (spliceIn j (tasks st ! i) (spliceOut i (tasks st)))"
  by (cases dir) (auto simp add: movePriority_def Let_def nat_diff_distrib nat_add_distrib split: prod.splits)








lemma movePriority_down:
  assumes "tasks st = as @ a # b # bs" and "task_id a = taskId"
    and "\<forall>t \<in> set as. task_id t \<noteq> taskId"
  shows "tasks (movePriority taskId Down updateOk st) = renumber (as @ b # a # bs)"
proof -
  have f: "findIndex (\<lambda>t. task_id t = taskId) (tasks st) = Some (length as)"
    using assms by (simp add: findIndex_append)
  have "tasks (movePriority taskId Down updateOk st)
      = renumber (spliceIn (Suc (length as)) (tasks st ! length as) (spliceOut (length as) (tasks st)))"
    using f assms(1) by (intro movePriority_tasks) simp_all
  also have "tasks st ! length as = a"
    using assms(1) by simp
  finally show ?thesis
    by (simp only: assms(1) splice_down)
qed

lemma movePriority_up:
  assumes "tasks st = as @ a # b # bs" and "task_id b = taskId" and "task_id a \<noteq> taskId"
    and "\<forall>t \<in> set as. task_id t \<noteq> taskId"
  shows "tasks (movePriority taskId Up updateOk st) = renumber (as @ b # a # bs)"
proof -
  have "findIndex (\<lambda>t. task_id t = taskId) ((as @ [a]) @ b # bs) = Some (length (as @ [a]))"
    using assms by (intro findIndex_append) simp_all
  then have f: "findIndex (\<lambda>t. task_id t = taskId) (tasks st) = Some (Suc (length as))"
    using assms(1) by simp
  have "tasks (movePriority taskId Up updateOk st)
      = renumber (spliceIn (length as) (tasks st ! Suc (length as)) (spliceOut (Suc (length as)) (tasks st)))"
    using f assms(1) by (intro movePriority_tasks) simp_all
  also have "tasks st ! Suc (length as) = b"
    using assms(1) by (simp add: nth_append)
  finally show ?thesis
    by (simp only: assms(1) splice_up)
qed

lemma tasks_afterFive: "tasks afterFive = tasks fiveTasks"
  by (simp add: afterFive_def fiveTasks_def emptyDay_def mkTask_def addTask_def
      setNewTaskTitle_def newTaskOf_def canAddTask_def trim_def isWhiteSpace_def)

lemma calls_afterFive: "calls afterFive = map Create (tasks fiveTasks)"
  by (simp add: afterFive_def fiveTasks_def emptyDay_def mkTask_def addTask_def
      setNewTaskTitle_def newTaskOf_def canAddTask_def trim_def isWhiteSpace_def)

lemma limit_afterFive: "dailyTaskLimit afterFive = 5"
  by (simp add: afterFive_def fiveTasks_def emptyDay_def mkTask_def addTask_def
      setNewTaskTitle_def newTaskOf_def canAddTask_def trim_def isWhiteSpace_def)

lemma titles_two_down:
  "map title (tasks (movePriority ''a'' Down ok2 (movePriority ''a'' Down ok1 fiveTasks)))
     = [[66], [67], [65], [68], [69]]
   \<and> map priority (tasks (movePriority ''a'' Down ok2 (movePriority ''a'' Down ok1 fiveTasks)))
     = [1, 2, 3, 4, 5]"
proof -
  let ?A = "mkTask ''a'' [65] 1" and ?B = "mkTask ''b'' [66] 2" and ?C = "mkTask ''c'' [67] 3"
    and ?D = "mkTask ''d'' [68] 4" and ?E = "mkTask ''e'' [69] 5"
  have t0: "tasks fiveTasks = [] @ ?A # ?B # [?C, ?D, ?E]"
    by (simp add: fiveTasks_def)
  have t1: "tasks (movePriority ''a'' Down ok1 fiveTasks) = renumber ([] @ ?B # ?A # [?C, ?D, ?E])"
    using t0 by (rule movePriority_down) (simp_all add: mkTask_def)
  have r1: "renumber ([] @ ?B # ?A # [?C, ?D, ?E])
      = [?B\<lparr>priority := 1\<rparr>] @ ?A\<lparr>priority := 2\<rparr> # ?C # [?D, ?E]"
    by (simp add: renumber_def mkTask_def upt_rec)
  have t2: "tasks (movePriority ''a'' Down ok2 (movePriority ''a'' Down ok1 fiveTasks))
      = renumber ([?B\<lparr>priority := 1\<rparr>] @ ?C # ?A\<lparr>priority := 2\<rparr> # [?D, ?E])"
    using t1 [unfolded r1] by (rule movePriority_down) (simp_all add: mkTask_def)
  show ?thesis
    by (simp add: t2 map_title_renumber map_priority_renumber mkTask_def upt_rec)
qed

section \<open>Claims about the task operations\<close>

text \<open>
  Claim C5. Task creation is validated before the store is called. The capacity test
  \<open>canAddTask currentCount dailyLimit\<close> holds exactly when \<open>currentCount < dailyLimit\<close>. An
  attempt made when the day's list has reached the daily limit, or with a title that is
  empty or consists of white space only, issues no store call and leaves the list as it
  is; with a limit of 5 and five tasks present the sixth attempt is rejected. Whenever a
  \<open>create\<close> call is issued, both checks have passed.
\<close>

theorem addTask_validated_locally:
  "canAddTask currentCount dailyLimit = (currentCount < dailyLimit)
   \<and> (dailyTaskLimit st \<le> length (tasks st) \<or> (\<forall>c \<in> set (newTaskTitle st). isWhiteSpace c) \<longrightarrow>
        calls (addTask newId createOk st) = calls st
        \<and> tasks (addTask newId createOk st) = tasks st)
   \<and> (dailyTaskLimit st = 5 \<and> length (tasks st) = 5 \<longrightarrow>
        calls (addTask newId createOk st) = calls st)
   \<and> (calls (addTask newId createOk st) \<noteq> calls st \<longrightarrow>
        canAddTask (length (tasks st)) (dailyTaskLimit st)
        \<and> trim (newTaskTitle st) \<noteq> []
        \<and> (\<exists>t. calls (addTask newId createOk st) = calls st @ [Create t]))"
proof -
  have c1: "canAddTask currentCount dailyLimit = (currentCount < dailyLimit)"
    by (rule canAddTask_iff)
  have c2: "calls (addTask newId createOk st) = calls st
        \<and> tasks (addTask newId createOk st) = tasks st"
    if "dailyTaskLimit st \<le> length (tasks st) \<or> (\<forall>c \<in> set (newTaskTitle st). isWhiteSpace c)"
    using that addTask_rejected [of st newId createOk] by (simp only: trim_empty_iff)
  have c3: "calls (addTask newId createOk st) = calls st"
    if "dailyTaskLimit st = 5 \<and> length (tasks st) = 5"
    using that addTask_rejected [of st newId createOk] by simp
  have c4: "canAddTask (length (tasks st)) (dailyTaskLimit st)
        \<and> trim (newTaskTitle st) \<noteq> []
        \<and> (\<exists>t. calls (addTask newId createOk st) = calls st @ [Create t])"
    if "calls (addTask newId createOk st) \<noteq> calls st"
    using that addTask_calls_cases [of newId createOk st] by (auto simp add: canAddTask_iff)
  from c1 c2 c3 c4 show ?thesis by blast
qed

theorem addTask_validated_locally_witness:
  "length (tasks afterFive) = 5 \<and> length (calls afterFive) = 5
   \<and> dailyTaskLimit afterFive = 5
   \<and> calls (addTask ''f'' True (setNewTaskTitle [70] afterFive)) = calls afterFive
   \<and> tasks (addTask ''f'' True (setNewTaskTitle [70] afterFive)) = tasks afterFive
   \<and> calls (addTask ''g'' True (setNewTaskTitle [32, 160, 9] emptyDay)) = []
   \<and> calls (addTask ''a'' True (setNewTaskTitle [65] emptyDay)) \<noteq> calls (setNewTaskTitle [65] emptyDay)
   \<and> canAddTask 0 5"
proof -
  have t5: "length (tasks afterFive) = 5"
    by (simp add: tasks_afterFive fiveTasks_def)
  have c5: "length (calls afterFive) = 5"
    by (simp add: calls_afterFive fiveTasks_def)
  have pre: "dailyTaskLimit (setNewTaskTitle [70] afterFive) = 5
      \<and> length (tasks (setNewTaskTitle [70] afterFive)) = 5"
    using t5 limit_afterFive by (simp add: setNewTaskTitle_def)
  have sixth: "calls (addTask ''f'' True (setNewTaskTitle [70] afterFive))
        = calls (setNewTaskTitle [70] afterFive)
      \<and> tasks (addTask ''f'' True (setNewTaskTitle [70] afterFive))
        = tasks (setNewTaskTitle [70] afterFive)"
    using addTask_validated_locally [of 0 5 "setNewTaskTitle [70] afterFive" "''f''" True] pre
    by simp
  have ws: "\<forall>c \<in> set (newTaskTitle (setNewTaskTitle [32, 160, 9] emptyDay)). isWhiteSpace c"
    by (simp add: setNewTaskTitle_def isWhiteSpace_def)
  have blank: "calls (addTask ''g'' True (setNewTaskTitle [32, 160, 9] emptyDay))
        = calls (setNewTaskTitle [32, 160, 9] emptyDay)"
    using addTask_validated_locally [of 0 5 "setNewTaskTitle [32, 160, 9] emptyDay" "''g''" True] ws
    by blast
  have first: "calls (addTask ''a'' True (setNewTaskTitle [65] emptyDay))
        \<noteq> calls (setNewTaskTitle [65] emptyDay)"
    by (simp add: emptyDay_def addTask_def setNewTaskTitle_def canAddTask_def trim_def
        isWhiteSpace_def)
  have can: "canAddTask 0 5"
    using addTask_validated_locally [of 0 5 "setNewTaskTitle [65] emptyDay" "''a''" True] first
    by (simp add: emptyDay_def setNewTaskTitle_def)
  from t5 c5 limit_afterFive sixth blank first can show ?thesis
    by (simp add: setNewTaskTitle_def emptyDay_def)
qed

text \<open>
  Claim C6, as the code has it. The reorder operation is \<open>movePriority\<close>: it takes a task
  id and a direction and moves that task by one position, so \<open>toIndex\<close> is always
  \<open>fromIndex - 1\<close> or \<open>fromIndex + 1\<close>. It removes the task at its index, reinserts it at
  the neighbouring index and renumbers every task's priority to its new 1-based position
  (titles and ids stay with their tasks). It changes nothing when the id is not in the
  list or the neighbouring index is out of range. On the titles A to E with priorities 1
  to 5, moving A down twice gives B, C, A, D, E with priorities 1 to 5.
\<close>

theorem movePriority_adjacent:
  "(findIndex (\<lambda>t. task_id t = taskId) (tasks st) = None \<longrightarrow>
      movePriority taskId dir updateOk st = st)
   \<and> (findIndex (\<lambda>t. task_id t = taskId) (tasks st) = Some i
        \<and> ((dir = Up \<and> i = 0) \<or> (dir = Down \<and> Suc i = length (tasks st))) \<longrightarrow>
      movePriority taskId dir updateOk st = st)
   \<and> (tasks st = as @ a # b # bs \<and> task_id a = taskId
        \<and> (\<forall>t \<in> set as. task_id t \<noteq> taskId) \<longrightarrow>
      tasks (movePriority taskId Down updateOk st) = renumber (as @ b # a # bs))
   \<and> (tasks st = as @ a # b # bs \<and> task_id b = taskId \<and> task_id a \<noteq> taskId
        \<and> (\<forall>t \<in> set as. task_id t \<noteq> taskId) \<longrightarrow>
      tasks (movePriority taskId Up updateOk st) = renumber (as @ b # a # bs))
   \<and> map priority (renumber ts) = [1..<Suc (length ts)]
   \<and> map title (renumber ts) = map title ts
   \<and> map task_id (renumber ts) = map task_id ts
   \<and> map title (tasks (movePriority ''a'' Down ok2 (movePriority ''a'' Down ok1 fiveTasks)))
        = [[66], [67], [65], [68], [69]]
   \<and> map priority (tasks (movePriority ''a'' Down ok2 (movePriority ''a'' Down ok1 fiveTasks)))
        = [1, 2, 3, 4, 5]"
proof -
  have c1: "findIndex (\<lambda>t. task_id t = taskId) (tasks st) = None \<longrightarrow>
      movePriority taskId dir updateOk st = st"
    by (simp add: movePriority_not_found)
  have c2: "findIndex (\<lambda>t. task_id t = taskId) (tasks st) = Some i
        \<and> ((dir = Up \<and> i = 0) \<or> (dir = Down \<and> Suc i = length (tasks st))) \<longrightarrow>
      movePriority taskId dir updateOk st = st"
    using movePriority_edge [of taskId st i dir updateOk] by blast
  have c3: "tasks st = as @ a # b # bs \<and> task_id a = taskId
        \<and> (\<forall>t \<in> set as. task_id t \<noteq> taskId) \<longrightarrow>
      tasks (movePriority taskId Down updateOk st) = renumber (as @ b # a # bs)"
    using movePriority_down [of st as a b bs taskId updateOk] by blast
  have c4: "tasks st = as @ a # b # bs \<and> task_id b = taskId \<and> task_id a \<noteq> taskId
        \<and> (\<forall>t \<in> set as. task_id t \<noteq> taskId) \<longrightarrow>
      tasks (movePriority taskId Up updateOk st) = renumber (as @ b # a # bs)"
    using movePriority_up [of st as a b bs taskId updateOk] by blast
  note c5 = map_priority_renumber [of ts] map_title_renumber [of ts] map_task_id_renumber [of ts]
  note c6 = titles_two_down [of ok2 ok1]
  from c1 c2 c3 c4 c5 c6 show ?thesis by blast
qed

theorem movePriority_adjacent_witness:
  "findIndex (\<lambda>t. task_id t = ''zz'') (tasks fiveTasks) = None
   \<and> movePriority ''zz'' Down (\<lambda>k. True) fiveTasks = fiveTasks
   \<and> findIndex (\<lambda>t. task_id t = ''a'') (tasks fiveTasks) = Some 0
   \<and> movePriority ''a'' Up (\<lambda>k. True) fiveTasks = fiveTasks
   \<and> findIndex (\<lambda>t. task_id t = ''e'') (tasks fiveTasks) = Some 4
   \<and> movePriority ''e'' Down (\<lambda>k. True) fiveTasks = fiveTasks
   \<and> map title (tasks (movePriority ''a'' Down (\<lambda>k. True) fiveTasks))
        = [[66], [65], [67], [68], [69]]
   \<and> map title (tasks (movePriority ''c'' Up (\<lambda>k. True) fiveTasks))
        = [[65], [67], [66], [68], [69]]
   \<and> map priority (tasks (movePriority ''c'' Up (\<lambda>k. True) fiveTasks)) = [1, 2, 3, 4, 5]"
proof -
  let ?A = "mkTask ''a'' [65] 1" and ?B = "mkTask ''b'' [66] 2" and ?C = "mkTask ''c'' [67] 3"
    and ?D = "mkTask ''d'' [68] 4" and ?E = "mkTask ''e'' [69] 5"
  let ?ok = "\<lambda>k::nat. True"
  have fz: "findIndex (\<lambda>t. task_id t = ''zz'') (tasks fiveTasks) = None"
    by (simp add: fiveTasks_def mkTask_def)
  have fa: "findIndex (\<lambda>t. task_id t = ''a'') (tasks fiveTasks) = Some 0"
    by (simp add: fiveTasks_def mkTask_def)
  have fe: "findIndex (\<lambda>t. task_id t = ''e'') (tasks fiveTasks) = Some 4"
    by (simp add: fiveTasks_def mkTask_def)
  have len: "Suc 4 = length (tasks fiveTasks)"
    by (simp add: fiveTasks_def)
  have mz: "movePriority ''zz'' Down ?ok fiveTasks = fiveTasks"
    using movePriority_adjacent [of "''zz''" fiveTasks Down ?ok] fz by blast
  have ma: "movePriority ''a'' Up ?ok fiveTasks = fiveTasks"
    using movePriority_adjacent [of "''a''" fiveTasks Up ?ok 0] fa by blast
  have me: "movePriority ''e'' Down ?ok fiveTasks = fiveTasks"
    using movePriority_adjacent [of "''e''" fiveTasks Down ?ok 4] fe len by blast
  have ta: "tasks fiveTasks = [] @ ?A # ?B # [?C, ?D, ?E]"
    by (simp add: fiveTasks_def)
  have ia: "task_id ?A = ''a'' \<and> (\<forall>t \<in> set []. task_id t \<noteq> ''a'')"
    by (simp add: mkTask_def)
  have da: "tasks (movePriority ''a'' Down ?ok fiveTasks) = renumber ([] @ ?B # ?A # [?C, ?D, ?E])"
    using movePriority_adjacent [of "''a''" fiveTasks Down ?ok 0 "[]" ?A ?B "[?C, ?D, ?E]"] ta ia
    by blast
  have tc: "tasks fiveTasks = [?A] @ ?B # ?C # [?D, ?E]"
    by (simp add: fiveTasks_def)
  have ic: "task_id ?C = ''c'' \<and> task_id ?B \<noteq> ''c'' \<and> (\<forall>t \<in> set [?A]. task_id t \<noteq> ''c'')"
    by (simp add: mkTask_def)
  have uc: "tasks (movePriority ''c'' Up ?ok fiveTasks) = renumber ([?A] @ ?C # ?B # [?D, ?E])"
    using movePriority_adjacent [of "''c''" fiveTasks Up ?ok 0 "[?A]" ?B ?C "[?D, ?E]"] tc ic
    by blast
  have r: "map title (renumber ts) = map title ts
      \<and> map priority (renumber ts) = [1..<Suc (length ts)]" for ts
    using movePriority_adjacent [of "''a''" fiveTasks Up ?ok 0 "[]" ?A ?B "[]" ts] by blast
  have tda: "map title (tasks (movePriority ''a'' Down ?ok fiveTasks)) = [[66], [65], [67], [68], [69]]"
    by (simp add: da r mkTask_def)
  have tuc: "map title (tasks (movePriority ''c'' Up ?ok fiveTasks)) = [[65], [67], [66], [68], [69]]"
    by (simp add: uc r mkTask_def)
  have puc: "map priority (tasks (movePriority ''c'' Up ?ok fiveTasks)) = [1, 2, 3, 4, 5]"
    by (simp add: uc r upt_rec)
  from fz mz fa ma fe me tda tuc puc show ?thesis by blast
qed

theorem reorder_single_call_counterexample:
  "(\<forall>updateOk. map title (tasks (movePriority ''a'' Down updateOk fiveTasks))
       = [[66], [65], [67], [68], [69]])
   \<and> (\<forall>updateOk. movePriority ''a'' Up updateOk fiveTasks = fiveTasks)
   \<and> map title (tasks fiveTasks) = [[65], [66], [67], [68], [69]]
   \<and> map priority (tasks fiveTasks) = [1, 2, 3, 4, 5]
   \<and> \<not> (\<exists>taskId dir updateOk.
          map title (tasks (movePriority taskId dir updateOk fiveTasks))
            = [[66], [67], [65], [68], [69]])"
proof -
  let ?A = "mkTask ''a'' [65] 1" and ?B = "mkTask ''b'' [66] 2" and ?C = "mkTask ''c'' [67] 3"
    and ?D = "mkTask ''d'' [68] 4" and ?E = "mkTask ''e'' [69] 5"
  have ts: "tasks fiveTasks = [?A, ?B, ?C, ?D, ?E]"
    by (simp add: fiveTasks_def)
  have down: "map title (tasks (movePriority ''a'' Down updateOk fiveTasks))
       = [[66], [65], [67], [68], [69]]" for updateOk
  proof -
    have "tasks fiveTasks = [] @ ?A # ?B # [?C, ?D, ?E]"
      by (simp add: fiveTasks_def)
    then have "tasks (movePriority ''a'' Down updateOk fiveTasks)
        = renumber ([] @ ?B # ?A # [?C, ?D, ?E])"
      by (rule movePriority_down) (simp_all add: mkTask_def)
    then show ?thesis
      by (simp add: map_title_renumber mkTask_def)
  qed
  have up: "movePriority ''a'' Up updateOk fiveTasks = fiveTasks" for updateOk
    by (rule movePriority_edge [where i = 0]) (simp_all add: fiveTasks_def mkTask_def)
  have titles: "map title (tasks fiveTasks) = [[65], [66], [67], [68], [69]]"
    by (simp add: fiveTasks_def mkTask_def)
  have prios: "map priority (tasks fiveTasks) = [1, 2, 3, 4, 5]"
    by (simp add: fiveTasks_def mkTask_def)
  have none: "map title (tasks (movePriority taskId dir updateOk fiveTasks))
            \<noteq> [[66], [67], [65], [68], [69]]" for taskId dir updateOk
  proof (cases "findIndex (\<lambda>t. task_id t = taskId) (tasks fiveTasks)")
    case None
    then show ?thesis
      by (simp add: movePriority_not_found titles)
  next
    case (Some i)
    then have i: "i < 5"
      using findIndex_Some [of "\<lambda>t. task_id t = taskId" "tasks fiveTasks" i]
      by (simp add: fiveTasks_def)
    define j where "j = (case dir of Up \<Rightarrow> i - 1 | Down \<Rightarrow> Suc i)"
    show ?thesis
    proof (cases "(dir = Up \<and> i = 0) \<or> (dir = Down \<and> Suc i = length (tasks fiveTasks))")
      case True
      with Some have "movePriority taskId dir updateOk fiveTasks = fiveTasks"
        by (rule movePriority_edge)
      then show ?thesis by (simp add: titles)
    next
      case False
      then have j5: "j < length (tasks fiveTasks)" and nu: "\<not> (dir = Up \<and> i = 0)"
        using i by (auto simp add: j_def ts split: direction.splits)
      have "tasks (movePriority taskId dir updateOk fiveTasks)
          = renumber (spliceIn j (tasks fiveTasks ! i) (spliceOut i (tasks fiveTasks)))"
        using Some j_def nu j5 by (rule movePriority_tasks)
      then have t: "map title (tasks (movePriority taskId dir updateOk fiveTasks))
          = map title (spliceIn j (tasks fiveTasks ! i) (spliceOut i (tasks fiveTasks)))"
        by (simp only: map_title_renumber)
      have "i = 0 \<or> i = 1 \<or> i = 2 \<or> i = 3 \<or> i = 4"
        using i by arith
      then have "map title (spliceIn j (tasks fiveTasks ! i) (spliceOut i (tasks fiveTasks)))
          \<noteq> [[66], [67], [65], [68], [69]]"
        using False
        by (cases dir)
          (auto simp add: j_def ts mkTask_def spliceIn_def spliceOut_def)
      then show ?thesis
        unfolding t .
    qed
  qed
  from down up titles prios none show ?thesis by simp
qed



section \<open>Lemmas: the \<open>Gamification\<close> state machine\<close>





section \<open>Claim about the \<open>Gamification\<close> state machine\<close>



end
